theory Spec2Isabelle
  imports Complex_Main "HOL-Library.Signed_Division"
begin

section \<open>Numeric model\<close>

text \<open>
  The DSP utilities of \<^verbatim>\<open>src/common/dsp/utilities/DSPUtils.h\<close> compute on \<^verbatim>\<open>float\<close> and
  \<^verbatim>\<open>double\<close>. Unless said otherwise they are embedded over \<^typ>\<open>real\<close>, in exact arithmetic:
  rounding, overflow and the non-finite values of the machine's arithmetic are then outside
  the model, and the properties proved of these definitions are properties in exact
  arithmetic. Where the source divides by a value that can be zero, or takes the logarithm of
  a negative number, the result would be an infinity or a NaN; such a call returns \<open>None\<close>
  here instead of HOL's \<open>x / 0 = 0\<close>. Two functions are embedded with the machine's rounding
  and overflow as well, on the values of the next section: \<open>tanh_faster1\<close>, and the step of
  the exponential-lag smoother as \<open>lag_process_float\<close>.

  An \<^verbatim>\<open>int\<close> is an \<^typ>\<open>int\<close>; none of the integer expressions modelled below can overflow.
  Integer division in C++ truncates towards zero, which is \<open>sdiv\<close>, not HOL's flooring \<open>div\<close>.
  A template argument (\<^verbatim>\<open>first_run_checks\<close>) is an explicit \<^typ>\<open>bool\<close> parameter, and the
  template type \<^verbatim>\<open>T\<close> is \<^typ>\<open>real\<close>.
\<close>

section \<open>IEEE arithmetic\<close>

text \<open>
  A value of \<^verbatim>\<open>float\<close> or \<^verbatim>\<open>double\<close> is a finite real, an infinity or a NaN. The two zeros
  are not told apart, which neither function embedded on these values can observe.
\<close>

datatype ieee = Finite real | PInf | NInf | NaN

text \<open>The nearest integer, the even one of the two at a tie.\<close>

definition round_even :: "real \<Rightarrow> int" where
  "round_even q =
     (let f = \<lfloor>q\<rfloor>;
          d = q - of_int f
      in if d < 1 / 2 then f
         else if 1 / 2 < d then f + 1
         else if even f then f else f + 1)"

text \<open>
  Rounding to nearest, ties to even, in the binary format of precision \<open>p\<close> and exponent
  range \<open>emin .. emax\<close>: the unit in the last place of \<open>x\<close> is \<open>2\<close> to the power \<open>e\<close>, bounded
  below by that of the subnormal numbers, and a rounded magnitude of \<open>2 ^ (emax + 1)\<close> or more
  overflows to an infinity.
\<close>

definition fl_round :: "nat \<Rightarrow> int \<Rightarrow> int \<Rightarrow> real \<Rightarrow> ieee" where
  "fl_round p emin emax x =
     (if x = 0 then Finite 0
      else let e = max \<lfloor>log 2 \<bar>x\<bar>\<rfloor> emin - (int p - 1);
               y = of_int (round_even (x / power_int 2 e)) * power_int 2 e
           in if power_int 2 (emax + 1) \<le> \<bar>y\<bar> then (if 0 < x then PInf else NInf)
              else Finite y)"

definition round32 :: "real \<Rightarrow> ieee" where
  "round32 = fl_round 24 (- 126) 127"

definition round64 :: "real \<Rightarrow> ieee" where
  "round64 = fl_round 53 (- 1022) 1023"

text \<open>
  Product and sum under a rounding function: the exact result rounded on finite operands, and
  the standard's results on the others (\<open>\<infinity> * 0\<close> and \<open>\<infinity> - \<infinity>\<close> are NaN).
\<close>

fun ieee_mul :: "(real \<Rightarrow> ieee) \<Rightarrow> ieee \<Rightarrow> ieee \<Rightarrow> ieee" where
  "ieee_mul rnd (Finite x) (Finite y) = rnd (x * y)"
| "ieee_mul rnd NaN b = NaN"
| "ieee_mul rnd a NaN = NaN"
| "ieee_mul rnd (Finite x) PInf = (if x = 0 then NaN else if 0 < x then PInf else NInf)"
| "ieee_mul rnd (Finite x) NInf = (if x = 0 then NaN else if 0 < x then NInf else PInf)"
| "ieee_mul rnd PInf (Finite y) = (if y = 0 then NaN else if 0 < y then PInf else NInf)"
| "ieee_mul rnd NInf (Finite y) = (if y = 0 then NaN else if 0 < y then NInf else PInf)"
| "ieee_mul rnd PInf PInf = PInf"
| "ieee_mul rnd PInf NInf = NInf"
| "ieee_mul rnd NInf PInf = NInf"
| "ieee_mul rnd NInf NInf = PInf"

fun ieee_add :: "(real \<Rightarrow> ieee) \<Rightarrow> ieee \<Rightarrow> ieee \<Rightarrow> ieee" where
  "ieee_add rnd (Finite x) (Finite y) = rnd (x + y)"
| "ieee_add rnd NaN b = NaN"
| "ieee_add rnd a NaN = NaN"
| "ieee_add rnd PInf NInf = NaN"
| "ieee_add rnd NInf PInf = NaN"
| "ieee_add rnd PInf b = PInf"
| "ieee_add rnd a PInf = PInf"
| "ieee_add rnd NInf b = NInf"
| "ieee_add rnd a NInf = NInf"

section \<open>Stateless functions\<close>

subsection \<open>Interpolation\<close>

definition cubic_ipol :: "real \<Rightarrow> real \<Rightarrow> real \<Rightarrow> real \<Rightarrow> real \<Rightarrow> real" where
  "cubic_ipol y0 y1 y2 y3 mu =
     (let mu2 = mu * mu;
          a0 = y3 - y2 - y0 + y1;
          a1 = y0 - y1 - a0;
          a2 = y2 - y0;
          a3 = y1
      in a0 * mu * mu2 + a1 * mu2 + a2 * mu + a3)"

text \<open>
  The polynomial \<open>c0 + c1 x + c2 x\<^sup>2 + c3 x\<^sup>3\<close> whose samples at \<open>-1, 0, 1, 2\<close> are fed to the
  kernel. It is not part of the source; it states what "a sampled cubic polynomial" is.
\<close>

definition cubic_poly :: "real \<Rightarrow> real \<Rightarrow> real \<Rightarrow> real \<Rightarrow> real \<Rightarrow> real" where
  "cubic_poly c0 c1 c2 c3 x = c0 + c1 * x + c2 * x ^ 2 + c3 * x ^ 3"

subsection \<open>Fast hyperbolic tangents\<close>

text \<open>
  \<^verbatim>\<open>const double a = 2 / 3;\<close> (and \<^verbatim>\<open>const float a = 2 / 3;\<close>): both operands are \<^verbatim>\<open>int\<close>
  literals, so the quotient is computed on integers and then converted.
\<close>

definition tanh_fast_a :: real where
  "tanh_fast_a = real_of_int (2 sdiv 3)"

definition tanh_fast_double :: "real \<Rightarrow> real" where
  "tanh_fast_double inp =
     (let x = \<bar>inp\<bar>;
          a = tanh_fast_a;
          xx = x * x;
          denom = 1 + x + xx + a * x * xx
      in (if inp > 0 then 1 else - 1) * (1 - 1 / denom))"

text \<open>
  \<^verbatim>\<open>_mm_rcp_ss\<close> is the hardware's approximate reciprocal; in exact arithmetic it is the
  reciprocal.
\<close>

definition rcp_ss :: "real \<Rightarrow> real" where
  "rcp_ss x = 1 / x"

definition tanh_fast_float :: "real \<Rightarrow> real" where
  "tanh_fast_float inp =
     (let a = tanh_fast_a;
          x = \<bar>inp\<bar>;
          xx = x * x;
          denom = 1 + x + xx + a * x * xx;
          denom = rcp_ss denom
      in (if inp > 0 then 1 else - 1) * (1 - denom))"

text \<open>\<^verbatim>\<open>const double a = -1 / 3, b = 2 / 15;\<close>, again on \<^verbatim>\<open>int\<close> literals.\<close>

definition tanh_faster1_a :: real where
  "tanh_faster1_a = real_of_int ((- 1) sdiv 3)"

definition tanh_faster1_b :: real where
  "tanh_faster1_b = real_of_int (2 sdiv 15)"

text \<open>
  The function on \<^verbatim>\<open>double\<close>: every product and sum is rounded to binary64. The literal
  \<open>1\<close> and the two constants are small integers, which the conversion to \<^verbatim>\<open>double\<close> keeps.
\<close>

definition tanh_faster1 :: "ieee \<Rightarrow> ieee" where
  "tanh_faster1 x =
     (let a = Finite tanh_faster1_a;
          b = Finite tanh_faster1_b;
          xs = ieee_mul round64 x x;
          y = ieee_add round64 (ieee_add round64 (Finite 1) (ieee_mul round64 xs a))
                (ieee_mul round64 (ieee_mul round64 xs xs) b)
      in ieee_mul round64 y x)"

subsection \<open>Amplitude curves\<close>

text \<open>
  Modelled from the spec: \<^verbatim>\<open>limit_range\<close> is declared in \<^verbatim>\<open>vembertech/basic_dsp.h\<close>, which is
  not among the sources. The specification describes it as a clamp of the first argument to
  the range given by the other two.
\<close>

definition limit_range :: "real \<Rightarrow> real \<Rightarrow> real \<Rightarrow> real" where
  "limit_range x low high = max low (min x high)"

definition amp_to_linear :: "real \<Rightarrow> real" where
  "amp_to_linear x0 = (let x = max 0 x0 in x * x * x)"

text \<open>
  \<^verbatim>\<open>powf\<close> is only ever called here on a base that the clamp (or the literal \<open>2\<close>) keeps
  positive, where it is \<open>powr\<close>.
\<close>

definition linear_to_amp :: "real \<Rightarrow> real" where
  "linear_to_amp x = (limit_range x (1 / 10 ^ 10) 1) powr (1 / 3)"

text \<open>
  \<^verbatim>\<open>log2\<close> of a negative number is a NaN (\<open>None\<close>); of zero it is \<open>-\<infinity>\<close>, which the clamp
  brings to the lower bound.
\<close>

definition amp_to_db :: "real \<Rightarrow> real option" where
  "amp_to_db x =
     (if x < 0 then None
      else if x = 0 then Some (- 192)
      else Some (limit_range (18 * log 2 x) (- 192) 96))"

definition db_to_amp :: "real \<Rightarrow> real" where
  "db_to_amp x = limit_range (2 powr (x / 18)) 0 2"

subsection \<open>Window functions\<close>

text \<open>
  With \<open>i < n\<close> and \<open>n = 1\<close> the quotient \<^verbatim>\<open>2 * M_PI * i / (n - 1)\<close> divides by zero and the
  cosine of the result is a NaN (\<open>None\<close>). \<open>n - 1\<close> is only evaluated when \<open>i < n\<close>, so it
  cannot overflow.
\<close>

definition hanning :: "int \<Rightarrow> int \<Rightarrow> real option" where
  "hanning i n =
     (if i \<ge> n then Some 0
      else if n - 1 = 0 then None
      else Some (0.5 * (1 - cos (2 * pi * real_of_int i / real_of_int (n - 1)))))"

definition hamming :: "int \<Rightarrow> int \<Rightarrow> real option" where
  "hamming i n =
     (if i \<ge> n then Some 0
      else if n - 1 = 0 then None
      else Some (0.54 - 0.46 * cos (2 * pi * real_of_int i / real_of_int (n - 1))))"

section \<open>Quadrature oscillator\<close>

record quadr_osc =
  r :: real
  i :: real
  dr :: real
  di :: real

text \<open>
  The constructor sets \<open>r\<close> and \<open>i\<close> only; \<open>dr\<close> and \<open>di\<close> keep whatever the storage held,
  here the two parameters.
\<close>

definition quadr_osc_new :: "real \<Rightarrow> real \<Rightarrow> quadr_osc" where
  "quadr_osc_new dr0 di0 = \<lparr>r = 0, i = - 1, dr = dr0, di = di0\<rparr>"

text \<open>
  \<^verbatim>\<open>double n = 1 / sqrt(r * r + i * i)\<close> divides by zero when both components are zero; the
  products that follow are then NaN (\<open>None\<close>).
\<close>

definition quadr_osc_set_rate :: "real \<Rightarrow> quadr_osc \<Rightarrow> quadr_osc option" where
  "quadr_osc_set_rate w s =
     (let s1 = s\<lparr>dr := cos w\<rparr>;
          s2 = s1\<lparr>di := sin w\<rparr>
      in if sqrt (r s2 * r s2 + i s2 * i s2) = 0 then None
         else let n = 1 / sqrt (r s2 * r s2 + i s2 * i s2);
                  s3 = s2\<lparr>r := r s2 * n\<rparr>
              in Some (s3\<lparr>i := i s3 * n\<rparr>))"

definition quadr_osc_set_phase :: "real \<Rightarrow> quadr_osc \<Rightarrow> quadr_osc" where
  "quadr_osc_set_phase w s = (let s1 = s\<lparr>r := sin w\<rparr> in s1\<lparr>i := - cos w\<rparr>)"

definition quadr_osc_process :: "quadr_osc \<Rightarrow> quadr_osc" where
  "quadr_osc_process s =
     (let lr = r s;
          li = i s;
          s1 = s\<lparr>r := dr s * lr - di s * li\<rparr>
      in s1\<lparr>i := dr s1 * li + di s1 * lr\<rparr>)"

text \<open>A sequence of calls on one oscillator; it stops with \<open>None\<close> at a call that does.\<close>

datatype osc_call = Set_rate real | Set_phase real | Process

fun osc_step :: "osc_call \<Rightarrow> quadr_osc \<Rightarrow> quadr_osc option" where
  "osc_step (Set_rate w) s = quadr_osc_set_rate w s"
| "osc_step (Set_phase w) s = Some (quadr_osc_set_phase w s)"
| "osc_step Process s = Some (quadr_osc_process s)"

fun osc_run :: "osc_call list \<Rightarrow> quadr_osc \<Rightarrow> quadr_osc option" where
  "osc_run [] s = Some s"
| "osc_run (c # cs) s = (case osc_step c s of None \<Rightarrow> None | Some s' \<Rightarrow> osc_run cs s')"

section \<open>Linear-ramp smoother\<close>

record lipol =
  v :: real
  new_v :: real
  dv :: real
  bs_inv :: real
  first_run :: bool

text \<open>\<^verbatim>\<open>bs_inv = 1 / (T)n\<close> is an infinity for \<open>n = 0\<close> (\<open>None\<close>).\<close>

definition lipol_setBlockSize :: "int \<Rightarrow> lipol \<Rightarrow> lipol option" where
  "lipol_setBlockSize n s = (if n = 0 then None else Some (s\<lparr>bs_inv := 1 / real_of_int n\<rparr>))"



definition lipol_newValue :: "bool \<Rightarrow> real \<Rightarrow> lipol \<Rightarrow> lipol" where
  "lipol_newValue first_run_checks f s =
     (let s1 = s\<lparr>v := new_v s\<rparr>;
          s2 = s1\<lparr>new_v := f\<rparr>;
          s3 = (if first_run_checks \<and> first_run s2
                then s2\<lparr>v := f, first_run := False\<rparr> else s2)
      in s3\<lparr>dv := (new_v s3 - v s3) * bs_inv s3\<rparr>)"

definition lipol_getTargetValue :: "lipol \<Rightarrow> real" where
  "lipol_getTargetValue s = new_v s"

definition lipol_instantize :: "lipol \<Rightarrow> lipol" where
  "lipol_instantize s = (let s1 = s\<lparr>v := new_v s\<rparr> in s1\<lparr>dv := 0\<rparr>)"

definition lipol_process :: "lipol \<Rightarrow> lipol" where
  "lipol_process s = s\<lparr>v := v s + dv s\<rparr>"

section \<open>Exponential-lag smoother\<close>

record lag =
  v :: real
  target_v :: real
  first_run :: bool
  lp :: real
  lpinv :: real

text \<open>
  Both constructors write every field except, without \<^verbatim>\<open>first_run_checks\<close>, the flag
  \<open>first_run\<close>, which keeps the content of the uninitialised object \<open>u\<close>.
\<close>

definition lag_new :: "bool \<Rightarrow> real \<Rightarrow> lag \<Rightarrow> lag" where
  "lag_new first_run_checks lp0 u =
     (let s1 = u\<lparr>lp := lp0\<rparr>;
          s2 = s1\<lparr>lpinv := 1 - lp s1\<rparr>;
          s3 = s2\<lparr>v := 0\<rparr>;
          s4 = s3\<lparr>target_v := 0\<rparr>
      in if first_run_checks then s4\<lparr>first_run := True\<rparr> else s4)"

definition lag_default :: "bool \<Rightarrow> lag \<Rightarrow> lag" where
  "lag_default first_run_checks u =
     (let s1 = u\<lparr>lp := 0.004\<rparr>;
          s2 = s1\<lparr>lpinv := 1 - lp s1\<rparr>;
          s3 = s2\<lparr>v := 0\<rparr>;
          s4 = s3\<lparr>target_v := 0\<rparr>
      in if first_run_checks then s4\<lparr>first_run := True\<rparr> else s4)"

definition lag_setRate :: "real \<Rightarrow> lag \<Rightarrow> lag" where
  "lag_setRate lp0 s = (let s1 = s\<lparr>lp := lp0\<rparr> in s1\<lparr>lpinv := 1 - lp s1\<rparr>)"

definition lag_newValue :: "bool \<Rightarrow> real \<Rightarrow> lag \<Rightarrow> lag" where
  "lag_newValue first_run_checks f s =
     (let s1 = s\<lparr>target_v := f\<rparr>
      in if first_run_checks \<and> first_run s1
         then s1\<lparr>v := target_v s1, first_run := False\<rparr>
         else s1)"

definition lag_startValue :: "bool \<Rightarrow> real \<Rightarrow> lag \<Rightarrow> lag" where
  "lag_startValue first_run_checks f s =
     (let s1 = s\<lparr>target_v := f\<rparr>;
          s2 = s1\<lparr>v := f\<rparr>
      in if first_run_checks \<and> first_run s2 then s2\<lparr>first_run := False\<rparr> else s2)"

definition lag_instantize :: "lag \<Rightarrow> lag" where
  "lag_instantize s = s\<lparr>v := target_v s\<rparr>"

definition lag_getTargetValue :: "lag \<Rightarrow> real" where
  "lag_getTargetValue s = target_v s"

text \<open>The step in exact arithmetic.\<close>

definition lag_process :: "lag \<Rightarrow> lag" where
  "lag_process s = s\<lparr>v := v s * lpinv s + target_v s * lp s\<rparr>"

text \<open>
  The step of \<^verbatim>\<open>lag<float>\<close>, on a state whose fields are binary32 numbers: both products
  and the sum are rounded to binary32. \<open>None\<close> stands for a result that is not finite.
\<close>

definition lag_process_float :: "lag \<Rightarrow> lag option" where
  "lag_process_float s =
     (case ieee_add round32 (ieee_mul round32 (Finite (v s)) (Finite (lpinv s)))
             (ieee_mul round32 (Finite (target_v s)) (Finite (lp s))) of
        Finite c \<Rightarrow> Some (s\<lparr>v := c\<rparr>)
      | _ \<Rightarrow> None)"

section \<open>Properties of the rounding\<close>

text \<open>
  The exponent of a non-zero number is fixed by the two powers of \<open>2\<close> around it, which makes
  \<open>fl_round\<close> computable on a given number. A number below \<open>2 ^ emax\<close> in magnitude rounds
  to a finite one, of at most twice its magnitude unless it is subnormal.
\<close>

lemma round_even_of_int: "round_even (of_int m) = m"
  by (simp add: round_even_def)

lemma powr_int_succ: "(2::real) powr (real_of_int L + 1) = power_int 2 (L + 1)"
  using powr_real_of_int' [of 2 "L + 1"] by simp

lemma powr_int_same: "(2::real) powr real_of_int L = power_int 2 L"
  using powr_real_of_int' [of 2 L] by simp

lemma floor_log2_eq:
  assumes "0 < a" and "power_int 2 L \<le> a" and "a < power_int 2 (L + 1)"
  shows "\<lfloor>log 2 a\<rfloor> = L"
  using assms by (simp add: floor_log_eq_powr_iff powr_int_succ powr_int_same)

lemma floor_log2_bounds:
  assumes "0 < a"
  shows "power_int 2 \<lfloor>log 2 a\<rfloor> \<le> a \<and> a < power_int 2 (\<lfloor>log 2 a\<rfloor> + 1)"
  using floor_log_eq_powr_iff [of a 2 "\<lfloor>log 2 a\<rfloor>"] assms
  by (simp add: powr_int_succ powr_int_same)

lemma fl_round_zero: "fl_round p emin emax 0 = Finite 0"
  by (simp add: fl_round_def)

lemma fl_round_eval:
  assumes "x \<noteq> 0" and "power_int 2 L \<le> \<bar>x\<bar>" and "\<bar>x\<bar> < power_int 2 (L + 1)"
  shows "fl_round p emin emax x =
     (let e = max L emin - (int p - 1);
          y = of_int (round_even (x / power_int 2 e)) * power_int 2 e
      in if power_int 2 (emax + 1) \<le> \<bar>y\<bar> then (if 0 < x then PInf else NInf) else Finite y)"
proof -
  have "0 < \<bar>x\<bar>" using assms(1) by simp
  from floor_log2_eq [OF this assms(2,3)] show ?thesis
    using assms(1) by (simp add: fl_round_def)
qed

lemma round_even_bound:
  assumes "\<bar>q\<bar> < of_int N"
  shows "\<bar>round_even q\<bar> \<le> N"
proof -
  have "q < of_int N" and "of_int (- N) < q" using assms by simp_all
  then have "\<lfloor>q\<rfloor> < N" and "- N \<le> \<lfloor>q\<rfloor>"
    by (simp_all add: floor_less_iff le_floor_iff)
  moreover have "round_even q = \<lfloor>q\<rfloor> \<or> round_even q = \<lfloor>q\<rfloor> + 1"
    by (simp add: round_even_def Let_def)
  ultimately show ?thesis by linarith
qed

lemma pow2_mono: "m \<le> n \<Longrightarrow> power_int (2::real) m \<le> power_int 2 n"
  by (rule power_int_increasing) simp_all

lemma pow2_less_exp: "power_int (2::real) m < power_int 2 n \<Longrightarrow> m < n"
  using pow2_mono [of n m] by (cases "m < n") simp_all

lemma pow2_succ: "power_int (2::real) (n + 1) = 2 * power_int 2 n"
  by (simp add: power_int_add)

lemma fl_round_finite:
  assumes x: "x \<noteq> 0" and small: "\<bar>x\<bar> < power_int 2 emax" and p: "0 < p" and em: "emin < emax"
  shows "\<exists>y. fl_round p emin emax x = Finite y \<and> \<bar>y\<bar> \<le> max (2 * \<bar>x\<bar>) (power_int 2 (emin + 1))"
proof -
  define L where "L = \<lfloor>log 2 \<bar>x\<bar>\<rfloor>"
  define M where "M = max L emin"
  define e where "e = M - (int p - 1)"
  define k where "k = round_even (x / power_int 2 e)"
  define y where "y = real_of_int k * power_int 2 e"
  have a: "0 < \<bar>x\<bar>" using x by simp
  from floor_log2_bounds [OF a]
  have lo: "power_int 2 L \<le> \<bar>x\<bar>" and hi: "\<bar>x\<bar> < power_int 2 (L + 1)"
    by (simp_all add: L_def)
  from lo small have "power_int (2::real) L < power_int 2 emax" by linarith
  then have "L < emax" by (rule pow2_less_exp)
  with em have M1: "M + 1 \<le> emax" by (simp add: M_def)
  have e0: "0 < power_int (2::real) e" by simp
  have pe: "power_int (2::real) (int p) * power_int 2 e = power_int 2 (M + 1)"
  proof -
    have "power_int (2::real) (int p + e) = power_int 2 (int p) * power_int 2 e"
      by (rule power_int_add) simp
    moreover have "int p + e = M + 1" by (simp add: e_def)
    ultimately show ?thesis by simp
  qed
  have "\<bar>x\<bar> < power_int 2 (M + 1)"
    using hi pow2_mono [of "L + 1" "M + 1"] by (simp add: M_def)
  then have "\<bar>x\<bar> < power_int 2 (int p) * power_int 2 e" by (simp only: pe)
  then have "\<bar>x\<bar> / power_int 2 e < power_int 2 (int p)"
    using e0 by (simp add: divide_less_eq)
  then have "\<bar>x / power_int 2 e\<bar> < real_of_int (2 ^ p)" by simp
  then have "\<bar>k\<bar> \<le> 2 ^ p" unfolding k_def by (rule round_even_bound)
  then have "real_of_int \<bar>k\<bar> \<le> real_of_int (2 ^ p)" by (simp only: of_int_le_iff)
  then have kb: "\<bar>real_of_int k\<bar> \<le> power_int 2 (int p)" by simp
  have "\<bar>y\<bar> = \<bar>real_of_int k\<bar> * power_int 2 e" by (simp add: y_def abs_mult)
  also have "\<dots> \<le> power_int 2 (int p) * power_int 2 e"
    using kb e0 by (simp add: mult_right_mono)
  finally have yb: "\<bar>y\<bar> \<le> power_int 2 (M + 1)" by (simp only: pe)
  have "power_int (2::real) (M + 1) \<le> power_int 2 emax" using M1 by (rule pow2_mono)
  also have "\<dots> < power_int 2 (emax + 1)" by (simp add: pow2_succ)
  finally have "\<bar>y\<bar> < power_int 2 (emax + 1)" using yb by linarith
  then have r: "fl_round p emin emax x = Finite y"
    using x by (simp add: fl_round_def Let_def y_def k_def e_def M_def L_def)
  have "power_int (2::real) (M + 1) \<le> max (2 * \<bar>x\<bar>) (power_int 2 (emin + 1))"
  proof (cases "emin \<le> L")
    case True
    then have "M = L" by (simp add: M_def)
    then show ?thesis using lo by (simp add: pow2_succ)
  next
    case False
    then have "M = emin" by (simp add: M_def)
    then show ?thesis by simp
  qed
  with yb r show ?thesis by fastforce
qed

lemma round64_finite:
  assumes "x \<noteq> 0" and "\<bar>x\<bar> < 2 ^ 1023"
  shows "\<exists>y. round64 x = Finite y \<and> \<bar>y\<bar> \<le> max (2 * \<bar>x\<bar>) (power_int 2 (- 1021))"
proof -
  have "\<bar>x\<bar> < power_int 2 1023" using assms(2) by simp
  from fl_round_finite [OF assms(1) this, of 53 "- 1022"] show ?thesis
    by (simp add: round64_def)
qed

lemma round64_square_finite:
  assumes "\<bar>x\<bar> \<le> 2 ^ n" and "2 * n < 1023"
  shows "\<exists>y. round64 (x * x) = Finite y \<and> \<bar>y\<bar> \<le> 2 ^ (2 * n + 1)"
proof (cases "x = 0")
  case True
  then show ?thesis by (simp add: round64_def fl_round_zero)
next
  case False
  have "\<bar>x\<bar> * \<bar>x\<bar> \<le> 2 ^ n * 2 ^ n" using assms(1) by (intro mult_mono) simp_all
  then have sq: "\<bar>x * x\<bar> \<le> 2 ^ (2 * n)" by (simp add: abs_mult mult_2 power_add)
  have "(2::real) ^ (2 * n) < 2 ^ 1023"
    by (rule power_strict_increasing) (use assms(2) in simp_all)
  with sq have lt: "\<bar>x * x\<bar> < 2 ^ 1023" by linarith
  from False have nz: "x * x \<noteq> 0" by simp
  from round64_finite [OF nz lt] obtain y where
    y: "round64 (x * x) = Finite y" "\<bar>y\<bar> \<le> max (2 * \<bar>x * x\<bar>) (power_int 2 (- 1021))"
    by blast
  have "2 * \<bar>x * x\<bar> \<le> 2 ^ (2 * n + 1)" using sq by simp
  moreover have "power_int (2::real) (- 1021) \<le> 1"
    by (simp add: power_int_minus_divide)
  moreover have "(1::real) \<le> 2 ^ (2 * n + 1)" by (rule one_le_power) simp
  ultimately have "\<bar>y\<bar> \<le> 2 ^ (2 * n + 1)" using y(2) by linarith
  with y(1) show ?thesis by simp
qed

lemma tanh_faster1_consts: "tanh_faster1_a = 0 \<and> tanh_faster1_b = 0"
  by (simp add: tanh_faster1_a_def tanh_faster1_b_def signed_divide_int_def)

lemma round64_one: "round64 1 = Finite 1"
  by (simp add: round64_def fl_round_eval [where L = 0] round_even_def power_int_def
      power_one_over Let_def)

section \<open>Properties of the stateless functions\<close>

subsection \<open>Window functions\<close>

text \<open>
  Claim C9. For every index and every length \<open>n\<close> with the index at least \<open>n\<close>, both
  \<open>hanning\<close> and \<open>hamming\<close> return exactly \<open>0\<close>. The early return precedes the division by
  \<open>n - 1\<close>, so this also holds for \<open>n = 1\<close> and for negative lengths.
\<close>

theorem window_zero_past_length:
  "n \<le> k \<Longrightarrow> hanning k n = Some 0 \<and> hamming k n = Some 0"
  by (simp add: hanning_def hamming_def)

theorem window_zero_past_length_witness:
  "(4::int) \<le> 4 \<and> hanning 4 4 = Some 0 \<and> hamming 4 4 = Some 0
   \<and> (4::int) \<le> 7 \<and> hanning 7 4 = Some 0 \<and> hamming 7 4 = Some 0"
  using window_zero_past_length [of 4 4] window_zero_past_length [of 4 7] by simp

subsection \<open>Fast hyperbolic tangents\<close>

lemma tanh_fast_a_zero: "tanh_fast_a = 0"
  by (simp add: tanh_fast_a_def signed_divide_int_def)

text \<open>
  Claim C7. In both overloads of \<open>tanh_fast\<close> the constant \<open>a\<close>, written \<open>2 / 3\<close>, is an
  integer quotient and equals \<open>0\<close>. The cubic term of the denominator vanishes, the
  denominator is \<open>1 + |x| + x\<^sup>2\<close>, and in exact arithmetic the result is
  \<open>sign x * (1 - 1 / (1 + |x| + x\<^sup>2))\<close>. At \<open>x = 0\<close> the source picks the factor \<open>-1\<close>, which
  multiplies \<open>0\<close>, so the sign convention at zero does not matter.
\<close>

theorem tanh_fast_degenerate:
  "tanh_fast_a = 0
   \<and> tanh_fast_double x = sgn x * (1 - 1 / (1 + \<bar>x\<bar> + x\<^sup>2))
   \<and> tanh_fast_float x = sgn x * (1 - 1 / (1 + \<bar>x\<bar> + x\<^sup>2))"
  by (simp add: tanh_fast_double_def tanh_fast_float_def rcp_ss_def tanh_fast_a_zero
      power2_eq_square sgn_real_def)

text \<open>
  Claim C10, as stated: \<open>tanh_faster1\<close> would return its argument for every input. The
  \<^verbatim>\<open>double\<close> \<open>2 ^ 256\<close> (about \<open>1.16e77\<close>) has the square \<open>2 ^ 512\<close>, whose own square
  \<open>2 ^ 1024\<close> overflows to \<open>+\<infinity>\<close>; the product of that infinity with \<open>b = 0\<close> is a NaN, and
  so are \<open>y\<close> and the result.
\<close>

theorem tanh_faster1_overflow_counterexample:
  "round64 (2 ^ 256) = Finite (2 ^ 256)
   \<and> ieee_mul round64 (Finite (2 ^ 256)) (Finite (2 ^ 256)) = Finite (2 ^ 512)
   \<and> ieee_mul round64 (Finite (2 ^ 512)) (Finite (2 ^ 512)) = PInf
   \<and> ieee_mul round64 PInf (Finite tanh_faster1_b) = NaN
   \<and> tanh_faster1 (Finite (2 ^ 256)) = NaN"
proof -
  have a: "round64 (2 ^ 256) = Finite (2 ^ 256)"
    by (simp add: round64_def fl_round_eval [where L = 256] round_even_def power_int_def
        power_one_over Let_def)
  have b: "ieee_mul round64 (Finite (2 ^ 256)) (Finite (2 ^ 256)) = Finite (2 ^ 512)"
    by (simp add: round64_def fl_round_eval [where L = 512] round_even_def power_int_def
        power_one_over Let_def)
  have c: "ieee_mul round64 (Finite (2 ^ 512)) (Finite (2 ^ 512)) = PInf"
    by (simp add: round64_def fl_round_eval [where L = 1024] round_even_def power_int_def
        power_one_over Let_def)
  have d: "ieee_mul round64 PInf (Finite tanh_faster1_b) = NaN"
    by (simp add: tanh_faster1_consts)
  have z: "round64 0 = Finite 0" by (simp add: round64_def fl_round_zero)
  have "tanh_faster1 (Finite (2 ^ 256)) = NaN"
    by (simp only: tanh_faster1_def Let_def b c d) (simp add: tanh_faster1_consts z round64_one)
  with a b c d show ?thesis by simp
qed

text \<open>
  Claim C10, amended. The constants \<open>a = -1 / 3\<close> and \<open>b = 2 / 15\<close> of \<open>tanh_faster1\<close> are
  integer quotients, truncated towards zero, and both equal \<open>0\<close>. For every \<^verbatim>\<open>double\<close> \<open>x\<close>
  with \<open>|x| \<le> 2 ^ 255\<close> (about \<open>5.8e76\<close>) no product overflows, the polynomial factor \<open>y\<close> is
  \<open>1\<close>, and the function returns exactly \<open>x\<close>. That \<open>x\<close> is a \<^verbatim>\<open>double\<close> is said by
  \<open>round64 x = Finite x\<close>.
\<close>

theorem tanh_faster1_identity_in_range:
  assumes "round64 x = Finite x" and "\<bar>x\<bar> \<le> 2 ^ 255"
  shows "tanh_faster1_a = 0 \<and> tanh_faster1_b = 0 \<and> tanh_faster1 (Finite x) = Finite x"
proof -
  from round64_square_finite [OF assms(2)] obtain xs where
    xs: "round64 (x * x) = Finite xs" "\<bar>xs\<bar> \<le> 2 ^ 511"
    by auto
  from round64_square_finite [OF xs(2)] obtain x4 where
    x4: "round64 (xs * xs) = Finite x4"
    by auto
  have z: "round64 0 = Finite 0" by (simp add: round64_def fl_round_zero)
  have "tanh_faster1 (Finite x) = Finite x"
    by (simp add: tanh_faster1_def tanh_faster1_consts Let_def xs(1) x4 z round64_one assms(1))
  then show ?thesis by (simp add: tanh_faster1_consts)
qed

theorem tanh_faster1_identity_in_range_witness:
  "round64 3 = Finite 3 \<and> tanh_faster1 (Finite 3) = Finite 3
   \<and> round64 (2 ^ 255) = Finite (2 ^ 255) \<and> tanh_faster1 (Finite (2 ^ 255)) = Finite (2 ^ 255)"
proof -
  have a: "round64 3 = Finite 3"
    by (simp add: round64_def fl_round_eval [where L = 1] round_even_def power_int_def
        power_one_over Let_def)
  have b: "round64 (2 ^ 255) = Finite (2 ^ 255)"
    by (simp add: round64_def fl_round_eval [where L = 255] round_even_def power_int_def
        power_one_over Let_def)
  have "tanh_faster1 (Finite 3) = Finite 3"
    using tanh_faster1_identity_in_range [OF a] by simp
  moreover have "tanh_faster1 (Finite (2 ^ 255)) = Finite (2 ^ 255)"
    using tanh_faster1_identity_in_range [OF b] by simp
  ultimately show ?thesis using a b by simp
qed

subsection \<open>Cubic interpolation\<close>

text \<open>
  The error of the kernel on the samples of \<open>c0 + c1 x + c2 x\<^sup>2 + c3 x\<^sup>3\<close> factors: it
  vanishes at both ends of the segment, and everywhere only when two linear conditions on the
  coefficients hold.
\<close>

lemma cubic_ipol_error:
  "cubic_ipol (cubic_poly c0 c1 c2 c3 (- 1)) (cubic_poly c0 c1 c2 c3 0)
      (cubic_poly c0 c1 c2 c3 1) (cubic_poly c0 c1 c2 c3 2) mu
    - cubic_poly c0 c1 c2 c3 mu
   = mu * (mu - 1) * ((2 * c1 + 2 * c2 + 7 * c3) * mu - (c1 + 2 * c3))"
  by (simp add: cubic_ipol_def cubic_poly_def Let_def power2_eq_square power3_eq_cube
      algebra_simps)

text \<open>
  Claim C6, as stated: the kernel would return \<open>p mu\<close> on the samples
  \<open>p (-1), p 0, p 1, p 2\<close> of every cubic polynomial \<open>p\<close>. For \<open>p x = x\<^sup>3\<close> the samples are
  \<open>-1, 0, 1, 8\<close>, and at \<open>mu = 1/2\<close> the kernel returns \<open>-1/4\<close> where \<open>p (1/2) = 1/8\<close>.
\<close>

theorem cubic_ipol_counterexample:
  "cubic_ipol (cubic_poly 0 0 0 1 (- 1)) (cubic_poly 0 0 0 1 0) (cubic_poly 0 0 0 1 1)
      (cubic_poly 0 0 0 1 2) (1 / 2) = - 1 / 4
   \<and> cubic_poly 0 0 0 1 (1 / 2) = 1 / 8"
  by (simp add: cubic_ipol_def cubic_poly_def Let_def power2_eq_square power3_eq_cube)

text \<open>
  Claim C6, amended. For all samples the kernel returns \<open>y1\<close> at \<open>mu = 0\<close> and \<open>y2\<close> at
  \<open>mu = 1\<close>. It reproduces the polynomial \<open>c0 + c1 x + c2 x\<^sup>2 + c3 x\<^sup>3\<close> on the whole of
  \<open>[0, 1]\<close> exactly when \<open>c1 = -2 c3\<close> and \<open>c2 = -(3/2) c3\<close>: constants are reproduced, and
  \<open>x\<close>, \<open>x\<^sup>2\<close> and \<open>x\<^sup>3\<close> are not.
\<close>

theorem cubic_ipol_reproduces:
  "cubic_ipol y0 y1 y2 y3 0 = y1 \<and> cubic_ipol y0 y1 y2 y3 1 = y2
   \<and> ((\<forall>mu \<in> {0..1}.
         cubic_ipol (cubic_poly c0 c1 c2 c3 (- 1)) (cubic_poly c0 c1 c2 c3 0)
           (cubic_poly c0 c1 c2 c3 1) (cubic_poly c0 c1 c2 c3 2) mu
         = cubic_poly c0 c1 c2 c3 mu)
       \<longleftrightarrow> c1 = - 2 * c3 \<and> c2 = - (3 / 2) * c3)"
proof (intro conjI iffI ballI)
  show "cubic_ipol y0 y1 y2 y3 0 = y1" by (simp add: cubic_ipol_def)
  show "cubic_ipol y0 y1 y2 y3 1 = y2" by (simp add: cubic_ipol_def)
next
  let ?e = "\<lambda>mu. cubic_ipol (cubic_poly c0 c1 c2 c3 (- 1)) (cubic_poly c0 c1 c2 c3 0)
           (cubic_poly c0 c1 c2 c3 1) (cubic_poly c0 c1 c2 c3 2) mu - cubic_poly c0 c1 c2 c3 mu"
  assume all: "\<forall>mu \<in> {0..1}.
         cubic_ipol (cubic_poly c0 c1 c2 c3 (- 1)) (cubic_poly c0 c1 c2 c3 0)
           (cubic_poly c0 c1 c2 c3 1) (cubic_poly c0 c1 c2 c3 2) mu
         = cubic_poly c0 c1 c2 c3 mu"
  have "?e (1 / 2) = 0" using all by simp
  then have h: "(2 * c1 + 2 * c2 + 7 * c3) * (1 / 2) - (c1 + 2 * c3) = 0"
    unfolding cubic_ipol_error by simp
  have "?e (1 / 4) = 0" using all by simp
  then have q: "(2 * c1 + 2 * c2 + 7 * c3) * (1 / 4) - (c1 + 2 * c3) = 0"
    unfolding cubic_ipol_error by simp
  from h q show "c1 = - 2 * c3" by linarith
  from h q have "2 * c2 = - 3 * c3" by (simp add: algebra_simps)
  then show "c2 = - (3 / 2) * c3" by simp
next
  fix mu :: real
  assume c: "c1 = - 2 * c3 \<and> c2 = - (3 / 2) * c3"
  have "cubic_ipol (cubic_poly c0 c1 c2 c3 (- 1)) (cubic_poly c0 c1 c2 c3 0)
           (cubic_poly c0 c1 c2 c3 1) (cubic_poly c0 c1 c2 c3 2) mu - cubic_poly c0 c1 c2 c3 mu = 0"
    unfolding cubic_ipol_error using c by simp
  then show "cubic_ipol (cubic_poly c0 c1 c2 c3 (- 1)) (cubic_poly c0 c1 c2 c3 0)
           (cubic_poly c0 c1 c2 c3 1) (cubic_poly c0 c1 c2 c3 2) mu = cubic_poly c0 c1 c2 c3 mu"
    by simp
qed

theorem cubic_ipol_reproduces_witness:
  "cubic_ipol (cubic_poly 1 (- 4) (- 3) 2 (- 1)) (cubic_poly 1 (- 4) (- 3) 2 0)
      (cubic_poly 1 (- 4) (- 3) 2 1) (cubic_poly 1 (- 4) (- 3) 2 2) (1 / 4)
    = cubic_poly 1 (- 4) (- 3) 2 (1 / 4)
   \<and> cubic_poly 1 (- 4) (- 3) 2 (1 / 4) = - 5 / 32"
proof -
  have "\<forall>mu \<in> {0..1}.
         cubic_ipol (cubic_poly 1 (- 4) (- 3) 2 (- 1)) (cubic_poly 1 (- 4) (- 3) 2 0)
           (cubic_poly 1 (- 4) (- 3) 2 1) (cubic_poly 1 (- 4) (- 3) 2 2) mu
         = cubic_poly 1 (- 4) (- 3) 2 mu"
    using cubic_ipol_reproduces [of 0 0 0 0 1 "- 4" "- 3" 2] by simp
  then have "cubic_ipol (cubic_poly 1 (- 4) (- 3) 2 (- 1)) (cubic_poly 1 (- 4) (- 3) 2 0)
      (cubic_poly 1 (- 4) (- 3) 2 1) (cubic_poly 1 (- 4) (- 3) 2 2) (1 / 4)
    = cubic_poly 1 (- 4) (- 3) 2 (1 / 4)" by simp
  moreover have "cubic_poly 1 (- 4) (- 3) 2 (1 / 4) = - 5 / 32"
    by (simp add: cubic_poly_def power2_eq_square power3_eq_cube)
  ultimately show ?thesis by simp
qed

section \<open>Properties of the linear-ramp smoother\<close>


lemma lipol_setBlockSize_Some:
  "lipol_setBlockSize n s0 = Some s \<Longrightarrow> n \<noteq> 0 \<and> s = s0\<lparr>bs_inv := 1 / real_of_int n\<rparr>"
  by (auto simp: lipol_setBlockSize_def split: if_splits)

text \<open>With \<open>first_run_checks\<close>, the flag is clear after every \<open>newValue\<close>.\<close>

lemma lipol_newValue_clears_flag:
  "frc \<longrightarrow> \<not> lipol.first_run (lipol_newValue frc f s)"
  by (simp add: lipol_newValue_def Let_def)




text \<open>
  Claim C4, as stated: the increment would be \<open>(target - current) / blockLength\<close> for the
  current value at the moment of the call. In the middle of a ramp from \<open>0\<close> to \<open>1\<close> with
  block length 4 the current value is \<open>1/4\<close>; \<open>newValue 2\<close> stores the increment
  \<open>(2 - 1) / 4 = 1/4\<close>, not \<open>(2 - 1/4) / 4 = 7/16\<close>.
\<close>

theorem lipol_newValue_increment_counterexample:
  "lipol_process (lipol_newValue False 1
       \<lparr>lipol.v = 0, new_v = 0, dv = 0, bs_inv = 1 / 4, first_run = False\<rparr>)
     = \<lparr>lipol.v = 1 / 4, new_v = 1, dv = 1 / 4, bs_inv = 1 / 4, first_run = False\<rparr>
   \<and> dv (lipol_newValue False 2
       \<lparr>lipol.v = 1 / 4, new_v = 1, dv = 1 / 4, bs_inv = 1 / 4, first_run = False\<rparr>) = 1 / 4
   \<and> (2 - lipol.v \<lparr>lipol.v = 1 / 4, new_v = 1, dv = 1 / 4, bs_inv = 1 / 4, first_run = False\<rparr>) / 4
     = 7 / 16"
  by (simp add: lipol_newValue_def lipol_process_def)

text \<open>
  Claim C4, amended. \<open>newValue f\<close> records the target \<open>f\<close> and first moves the current
  value to the prior target (to \<open>f\<close> itself when the first-update jump applies); the
  increment is \<open>(target - current) / blockLength\<close> for that reassigned current value, with
  the block length \<open>n \<noteq> 0\<close> given to \<open>setBlockSize\<close>. Each \<open>process\<close> adds the increment to
  the current value once and leaves the increment as it is.
\<close>

theorem lipol_newValue_increment:
  assumes "lipol_setBlockSize n s0 = Some s"
  shows "new_v (lipol_newValue frc f s) = f
     \<and> lipol.v (lipol_newValue frc f s) = (if frc \<and> lipol.first_run s then f else new_v s)
     \<and> dv (lipol_newValue frc f s) = (f - lipol.v (lipol_newValue frc f s)) / real_of_int n
     \<and> lipol.v (lipol_process t) = lipol.v t + dv t
     \<and> dv (lipol_process t) = dv t"
proof -
  from assms(1) have b: "bs_inv s = 1 / real_of_int n"
    by (auto dest: lipol_setBlockSize_Some)
  show ?thesis
    by (simp add: lipol_newValue_def lipol_process_def Let_def b)
qed

theorem lipol_newValue_increment_witness:
  "lipol_setBlockSize 4 \<lparr>lipol.v = 1 / 4, new_v = 1, dv = 1 / 4, bs_inv = 1 / 32, first_run = False\<rparr>
     = Some \<lparr>lipol.v = 1 / 4, new_v = 1, dv = 1 / 4, bs_inv = 1 / 4, first_run = False\<rparr>
   \<and> lipol_newValue True 2
        \<lparr>lipol.v = 1 / 4, new_v = 1, dv = 1 / 4, bs_inv = 1 / 4, first_run = False\<rparr>
     = \<lparr>lipol.v = 1, new_v = 2, dv = 1 / 4, bs_inv = 1 / 4, first_run = False\<rparr>"
proof -
  let ?a = "\<lparr>lipol.v = 1 / 4, new_v = 1, dv = 1 / 4, bs_inv = 1 / 32, first_run = False\<rparr>"
  let ?b = "\<lparr>lipol.v = 1 / 4, new_v = 1, dv = 1 / 4, bs_inv = 1 / 4, first_run = False\<rparr>"
  have h: "lipol_setBlockSize 4 ?a = Some ?b"
    by (simp add: lipol_setBlockSize_def)
  have "new_v (lipol_newValue True 2 ?b) = 2 \<and> lipol.v (lipol_newValue True 2 ?b) = 1
    \<and> dv (lipol_newValue True 2 ?b) = 1 / 4"
    using lipol_newValue_increment [OF h, of True 2] by simp
  moreover have "bs_inv (lipol_newValue True 2 ?b) = 1 / 4
    \<and> lipol.first_run (lipol_newValue True 2 ?b) = False"
    by (simp add: lipol_newValue_def)
  ultimately have "lipol_newValue True 2 ?b
     = \<lparr>lipol.v = 1, new_v = 2, dv = 1 / 4, bs_inv = 1 / 4, first_run = False\<rparr>"
    by (cases "lipol_newValue True 2 ?b") simp
  with h show ?thesis by simp
qed

section \<open>Properties of the exponential-lag smoother\<close>

text \<open>
  The coefficient \<open>lp\<close> and its complement \<open>lpinv\<close> are private: the constructors and
  \<open>setRate\<close> write them together, and no other operation touches them. Iterating
  \<open>process\<close> changes the current value only.
\<close>

lemma lag_process_funpow_frame:
  "target_v ((lag_process ^^ t) s) = target_v s \<and> lp ((lag_process ^^ t) s) = lp s
   \<and> lpinv ((lag_process ^^ t) s) = lpinv s
   \<and> lag.first_run ((lag_process ^^ t) s) = lag.first_run s"
  by (induction t) (simp_all add: lag_process_def)

lemma lag_process_funpow_v:
  assumes "lpinv s = 1 - lp s"
  shows "lag.v ((lag_process ^^ t) s) - target_v s = (lag.v s - target_v s) * (1 - lp s) ^ t"
proof (induction t)
  case 0
  show ?case by simp
next
  case (Suc t)
  have "lag.v ((lag_process ^^ Suc t) s) - target_v s
      = (lag.v ((lag_process ^^ t) s) - target_v s) * (1 - lp s)"
    by (simp add: lag_process_def lag_process_funpow_frame assms algebra_simps)
  then show ?case by (simp add: Suc)
qed

lemma lag_rate_established:
  "lp (lag_new frc k u) = k \<and> lpinv (lag_new frc k u) = 1 - k"
  "lp (lag_default frc u) = 0.004 \<and> lpinv (lag_default frc u) = 1 - 0.004"
  "lp (lag_setRate k s) = k \<and> lpinv (lag_setRate k s) = 1 - k"
  by (simp_all add: lag_new_def lag_default_def lag_setRate_def Let_def)

lemma lag_rate_preserved:
  "lp (lag_newValue frc f s) = lp s \<and> lpinv (lag_newValue frc f s) = lpinv s"
  "lp (lag_startValue frc f s) = lp s \<and> lpinv (lag_startValue frc f s) = lpinv s"
  "lp (lag_instantize s) = lp s \<and> lpinv (lag_instantize s) = lpinv s"
  "lp (lag_process s) = lp s \<and> lpinv (lag_process s) = lpinv s"
  by (simp_all add: lag_newValue_def lag_startValue_def lag_instantize_def lag_process_def Let_def)

text \<open>
  Claim C2, as stated: the distance to the target would be \<open>|current\<^sub>0 - T| * (1 - k) ^ t\<close>
  exactly for every number of steps. On \<^verbatim>\<open>lag<float>\<close> with \<open>k = 1/2\<close>, target \<open>8\<close> and the
  current value \<open>8 - 2\<^sup>-\<^sup>2\<^sup>1\<close> (the \<^verbatim>\<open>float\<close> just below \<open>8\<close>), one step computes
  \<open>(4 - 2\<^sup>-\<^sup>2\<^sup>2) + 4\<close>, which lies half way between two \<^verbatim>\<open>float\<close>s and rounds to \<open>8\<close>: the
  distance after the step is \<open>0\<close>, not \<open>2\<^sup>-\<^sup>2\<^sup>2\<close>, and the new current value is not
  \<open>current * (1 - k) + target * k\<close>.
\<close>

theorem lag_float_counterexample:
  "lag_newValue True 8 (lag_startValue True (8 - 1 / 2 ^ 21) (lag_new True (1 / 2)
        \<lparr>lag.v = 9, target_v = 9, first_run = False, lp = 9, lpinv = 9\<rparr>))
     = \<lparr>lag.v = 8 - 1 / 2 ^ 21, target_v = 8, first_run = False, lp = 1 / 2, lpinv = 1 / 2\<rparr>
   \<and> round32 (8 - 1 / 2 ^ 21) = Finite (8 - 1 / 2 ^ 21)
   \<and> round32 8 = Finite 8
   \<and> round32 (1 / 2) = Finite (1 / 2)
   \<and> lag_process_float
        \<lparr>lag.v = 8 - 1 / 2 ^ 21, target_v = 8, first_run = False, lp = 1 / 2, lpinv = 1 / 2\<rparr>
     = Some \<lparr>lag.v = 8, target_v = 8, first_run = False, lp = 1 / 2, lpinv = 1 / 2\<rparr>
   \<and> (8 - 1 / 2 ^ 21) * (1 - 1 / 2) + 8 * (1 / 2) = (8 - 1 / 2 ^ 22 :: real)
   \<and> \<bar>8 - 1 / 2 ^ 21 - 8\<bar> * (1 - 1 / 2) ^ 1 = (1 / 2 ^ 22 :: real)"
proof -
  have s: "lag_newValue True 8 (lag_startValue True (8 - 1 / 2 ^ 21) (lag_new True (1 / 2)
        \<lparr>lag.v = 9, target_v = 9, first_run = False, lp = 9, lpinv = 9\<rparr>))
     = \<lparr>lag.v = 8 - 1 / 2 ^ 21, target_v = 8, first_run = False, lp = 1 / 2, lpinv = 1 / 2\<rparr>"
    by (simp add: lag_newValue_def lag_startValue_def lag_new_def Let_def)
  have a: "round32 (8 - 1 / 2 ^ 21) = Finite (8 - 1 / 2 ^ 21)"
    by (simp add: round32_def fl_round_eval [where L = 2] round_even_def power_int_def
        power_one_over Let_def)
  have b: "round32 8 = Finite 8"
    by (simp add: round32_def fl_round_eval [where L = 3] round_even_def power_int_def
        power_one_over Let_def)
  have c: "round32 (1 / 2) = Finite (1 / 2)"
    by (simp add: round32_def fl_round_eval [where L = "- 1"] round_even_def power_int_def
        power_one_over Let_def)
  have m1: "ieee_mul round32 (Finite (8 - 1 / 2 ^ 21)) (Finite (1 / 2)) = Finite (4 - 1 / 2 ^ 22)"
    by (simp add: round32_def fl_round_eval [where L = 1] round_even_def power_int_def
        power_one_over Let_def)
  have m2: "ieee_mul round32 (Finite 8) (Finite (1 / 2)) = Finite 4"
    by (simp add: round32_def fl_round_eval [where L = 2] round_even_def power_int_def
        power_one_over Let_def)
  have ad: "ieee_add round32 (Finite (4 - 1 / 2 ^ 22)) (Finite 4) = Finite 8"
    by (simp add: round32_def fl_round_eval [where L = 2] round_even_def power_int_def
        power_one_over Let_def)
  have p: "lag_process_float
        \<lparr>lag.v = 8 - 1 / 2 ^ 21, target_v = 8, first_run = False, lp = 1 / 2, lpinv = 1 / 2\<rparr>
     = Some \<lparr>lag.v = 8, target_v = 8, first_run = False, lp = 1 / 2, lpinv = 1 / 2\<rparr>"
    by (simp only: lag_process_float_def lag.select_convs m1 m2 ad) simp
  have e: "(8 - 1 / 2 ^ 21) * (1 - 1 / 2) + 8 * (1 / 2) = (8 - 1 / 2 ^ 22 :: real)"
      "\<bar>8 - 1 / 2 ^ 21 - 8\<bar> * (1 - 1 / 2) ^ 1 = (1 / 2 ^ 22 :: real)"
    by simp_all
  from s a b c p e show ?thesis by (intro conjI)
qed

text \<open>
  Claim C2, amended. In exact arithmetic, for a smoothing coefficient \<open>k\<close> (between \<open>0\<close> and
  \<open>1\<close>, both included, as the specification's data model has it), \<open>process\<close> computes
  \<open>current * (1 - k) + target * k\<close>. With the target \<open>T\<close> left unchanged, the distance to
  the target after \<open>t\<close> steps is \<open>|current\<^sub>0 - T| * (1 - k) ^ t\<close> exactly, and the
  sequence moves monotonically towards \<open>T\<close> without crossing it, from below when it starts
  below \<open>T\<close> and from above when it starts above.
\<close>

theorem lag_exponential:
  assumes "lp s = k" and "lpinv s = 1 - k" and "0 \<le> k" and "k \<le> 1"
  shows "lag.v (lag_process s) = lag.v s * (1 - k) + target_v s * k
    \<and> \<bar>lag.v ((lag_process ^^ t) s) - target_v s\<bar> = \<bar>lag.v s - target_v s\<bar> * (1 - k) ^ t
    \<and> (lag.v s \<le> target_v s \<longrightarrow>
          lag.v ((lag_process ^^ t) s) \<le> lag.v ((lag_process ^^ Suc t) s)
          \<and> lag.v ((lag_process ^^ Suc t) s) \<le> target_v s)
    \<and> (target_v s \<le> lag.v s \<longrightarrow>
          target_v s \<le> lag.v ((lag_process ^^ Suc t) s)
          \<and> lag.v ((lag_process ^^ Suc t) s) \<le> lag.v ((lag_process ^^ t) s))"
proof -
  have inv: "lpinv s = 1 - lp s" using assms by simp
  have d: "lag.v ((lag_process ^^ n) s) - target_v s = (lag.v s - target_v s) * (1 - k) ^ n" for n
    using lag_process_funpow_v [OF inv, of n] assms(1) by simp
  have p: "0 \<le> (1 - k) ^ n" for n using assms(4) by simp
  have step: "lag.v ((lag_process ^^ Suc t) s) - target_v s
      = (lag.v ((lag_process ^^ t) s) - target_v s) * (1 - k)"
    unfolding d by simp
  have one: "lag.v (lag_process s) = lag.v s * (1 - k) + target_v s * k"
    using assms by (simp add: lag_process_def)
  have dist: "\<bar>lag.v ((lag_process ^^ t) s) - target_v s\<bar> = \<bar>lag.v s - target_v s\<bar> * (1 - k) ^ t"
    using p [of t] by (simp add: d abs_mult)
  have up: "lag.v ((lag_process ^^ t) s) \<le> lag.v ((lag_process ^^ Suc t) s)
          \<and> lag.v ((lag_process ^^ Suc t) s) \<le> target_v s" if le: "lag.v s \<le> target_v s"
  proof -
    have "(lag.v s - target_v s) * (1 - k) ^ t \<le> 0"
      using le p [of t] by (simp add: mult_nonpos_nonneg)
    then have a: "lag.v ((lag_process ^^ t) s) - target_v s \<le> 0" by (simp add: d)
    have "(lag.v ((lag_process ^^ t) s) - target_v s) * (1 - k) \<le> 0"
      using a assms(4) by (simp add: mult_nonpos_nonneg)
    moreover have "(lag.v ((lag_process ^^ t) s) - target_v s) * k \<le> 0"
      using a assms(3) by (simp add: mult_nonpos_nonneg)
    ultimately show ?thesis using step by (simp add: algebra_simps)
  qed
  have down: "target_v s \<le> lag.v ((lag_process ^^ Suc t) s)
          \<and> lag.v ((lag_process ^^ Suc t) s) \<le> lag.v ((lag_process ^^ t) s)"
    if ge: "target_v s \<le> lag.v s"
  proof -
    have "0 \<le> (lag.v s - target_v s) * (1 - k) ^ t"
      using ge p [of t] by simp
    then have a: "0 \<le> lag.v ((lag_process ^^ t) s) - target_v s" by (simp add: d)
    have "0 \<le> (lag.v ((lag_process ^^ t) s) - target_v s) * (1 - k)"
      using a assms(4) by simp
    moreover have "0 \<le> (lag.v ((lag_process ^^ t) s) - target_v s) * k"
      using a assms(3) by simp
    ultimately show ?thesis using step by (simp add: algebra_simps)
  qed
  from one dist up down show ?thesis by blast
qed

theorem lag_exponential_witness:
  "lag_newValue True 8 (lag_startValue True 0 (lag_new True (1 / 2)
        \<lparr>lag.v = 9, target_v = 9, first_run = False, lp = 9, lpinv = 9\<rparr>))
     = \<lparr>lag.v = 0, target_v = 8, first_run = False, lp = 1 / 2, lpinv = 1 / 2\<rparr>
   \<and> lag.v (lag_process \<lparr>lag.v = 0, target_v = 8, first_run = False, lp = 1 / 2, lpinv = 1 / 2\<rparr>)
       = 4
   \<and> \<bar>lag.v ((lag_process ^^ 3)
          \<lparr>lag.v = 0, target_v = 8, first_run = False, lp = 1 / 2, lpinv = 1 / 2\<rparr>) - 8\<bar> = 1
   \<and> lag.v ((lag_process ^^ 3)
          \<lparr>lag.v = 0, target_v = 8, first_run = False, lp = 1 / 2, lpinv = 1 / 2\<rparr>)
       \<le> lag.v ((lag_process ^^ Suc 3)
          \<lparr>lag.v = 0, target_v = 8, first_run = False, lp = 1 / 2, lpinv = 1 / 2\<rparr>)
   \<and> lag.v ((lag_process ^^ Suc 3)
          \<lparr>lag.v = 0, target_v = 8, first_run = False, lp = 1 / 2, lpinv = 1 / 2\<rparr>) \<le> 8"
proof -
  let ?s = "\<lparr>lag.v = 0, target_v = 8, first_run = False, lp = 1 / 2, lpinv = 1 / 2\<rparr>"
  have r: "lag_newValue True 8 (lag_startValue True 0 (lag_new True (1 / 2)
        \<lparr>lag.v = 9, target_v = 9, first_run = False, lp = 9, lpinv = 9\<rparr>)) = ?s"
    by (simp add: lag_newValue_def lag_startValue_def lag_new_def Let_def)
  have h: "lp ?s = 1 / 2" "lpinv ?s = 1 - 1 / 2" "(0::real) \<le> 1 / 2" "(1 / 2 :: real) \<le> 1"
    by simp_all
  from lag_exponential [OF h, of 3] r show ?thesis
    by (simp add: power3_eq_cube)
qed

text \<open>
  Claim C5, as stated: \<open>newValue\<close> would leave the current value unchanged in every
  reachable state. On a smoother just built by the default constructor with
  \<open>first_run_checks\<close>, the current value is \<open>0\<close> and \<open>newValue 5\<close> sets it to \<open>5\<close>.
\<close>

theorem lag_newValue_counterexample:
  "lag_default True \<lparr>lag.v = 9, target_v = 9, first_run = False, lp = 9, lpinv = 9\<rparr>
     = \<lparr>lag.v = 0, target_v = 0, first_run = True, lp = 0.004, lpinv = 0.996\<rparr>
   \<and> lag.v \<lparr>lag.v = 0, target_v = 0, first_run = True, lp = 0.004, lpinv = 0.996\<rparr> = 0
   \<and> lag.v (lag_newValue True 5
        \<lparr>lag.v = 0, target_v = 0, first_run = True, lp = 0.004, lpinv = 0.996\<rparr>) = 5"
  by (simp add: lag_default_def lag_newValue_def Let_def)

text \<open>
  Claim C5, amended. Where the first-update jump does not apply (\<open>first_run_checks\<close> is
  off, or the flag \<open>first_run\<close> has been cleared), \<open>newValue\<close> leaves the current value
  unchanged and changes the stored target only. Where it applies, \<open>newValue\<close> sets the
  current value to the new target and clears the flag; with \<open>first_run_checks\<close> the flag is
  clear after every \<open>newValue\<close>.
\<close>

theorem lag_newValue_frame:
  "(\<not> (frc \<and> lag.first_run s) \<longrightarrow>
      lag.v (lag_newValue frc f s) = lag.v s \<and> lag_newValue frc f s = s\<lparr>target_v := f\<rparr>)
   \<and> (frc \<and> lag.first_run s \<longrightarrow>
      lag.v (lag_newValue frc f s) = f
      \<and> lag_newValue frc f s = s\<lparr>target_v := f, lag.v := f, lag.first_run := False\<rparr>)
   \<and> (frc \<longrightarrow> \<not> lag.first_run (lag_newValue frc f s))"
  by (simp add: lag_newValue_def Let_def)

theorem lag_newValue_frame_witness:
  "lag_newValue True 5 \<lparr>lag.v = 0, target_v = 0, first_run = True, lp = 1 / 2, lpinv = 1 / 2\<rparr>
     = \<lparr>lag.v = 5, target_v = 5, first_run = False, lp = 1 / 2, lpinv = 1 / 2\<rparr>
   \<and> lag_newValue True 7 \<lparr>lag.v = 5, target_v = 5, first_run = False, lp = 1 / 2, lpinv = 1 / 2\<rparr>
     = \<lparr>lag.v = 5, target_v = 7, first_run = False, lp = 1 / 2, lpinv = 1 / 2\<rparr>
   \<and> lag_newValue False 7 \<lparr>lag.v = 5, target_v = 5, first_run = True, lp = 1 / 2, lpinv = 1 / 2\<rparr>
     = \<lparr>lag.v = 5, target_v = 7, first_run = True, lp = 1 / 2, lpinv = 1 / 2\<rparr>"
  using lag_newValue_frame [of True
      "\<lparr>lag.v = 0, target_v = 0, first_run = True, lp = 1 / 2, lpinv = 1 / 2\<rparr>" 5]
    lag_newValue_frame [of True
      "\<lparr>lag.v = 5, target_v = 5, first_run = False, lp = 1 / 2, lpinv = 1 / 2\<rparr>" 7]
    lag_newValue_frame [of False
      "\<lparr>lag.v = 5, target_v = 5, first_run = True, lp = 1 / 2, lpinv = 1 / 2\<rparr>" 7]
  by simp

section \<open>Properties of the quadrature oscillator\<close>

text \<open>
  \<open>set_rate\<close> scales \<open>(r, i)\<close> by the inverse of its length, \<open>process\<close> multiplies the
  squared length by \<open>dr\<^sup>2 + di\<^sup>2\<close>, and \<open>set_phase\<close> puts \<open>(r, i)\<close> on the unit circle
  without touching the rotation. Once a rate has been set, both \<open>(r, i)\<close> and \<open>(dr, di)\<close>
  have length \<open>1\<close>, and every call keeps it so.
\<close>

lemma inv_sqrt_square: "0 < q \<Longrightarrow> q * (1 / sqrt q)\<^sup>2 = 1" for q :: real
  by (simp add: power_divide)

lemma scaled_norm: "(a * n)\<^sup>2 + (b * n)\<^sup>2 = (a * a + b * b) * n\<^sup>2" for a b n :: real
  by (simp add: power2_eq_square algebra_simps)

lemma quadr_osc_set_rate_unit:
  assumes "0 < (r s)\<^sup>2 + (i s)\<^sup>2"
  shows "\<exists>s1. quadr_osc_set_rate w s = Some s1 \<and> (r s1)\<^sup>2 + (i s1)\<^sup>2 = 1
           \<and> dr s1 = cos w \<and> di s1 = sin w"
proof -
  let ?q = "r s * r s + i s * i s"
  have q: "0 < ?q" using assms by (simp add: power2_eq_square)
  then have ne: "\<not> (r s = 0 \<and> i s = 0)" by auto
  have u: "(r s * (1 / sqrt ?q))\<^sup>2 + (i s * (1 / sqrt ?q))\<^sup>2 = 1"
    by (simp only: scaled_norm inv_sqrt_square [OF q])
  show ?thesis using ne u by (simp add: quadr_osc_set_rate_def Let_def)
qed

lemma quadr_osc_process_norm:
  "(r (quadr_osc_process s))\<^sup>2 + (i (quadr_osc_process s))\<^sup>2
     = ((dr s)\<^sup>2 + (di s)\<^sup>2) * ((r s)\<^sup>2 + (i s)\<^sup>2)"
  by (simp add: quadr_osc_process_def Let_def power2_eq_square algebra_simps)

lemma quadr_osc_process_rate:
  "dr (quadr_osc_process s) = dr s \<and> di (quadr_osc_process s) = di s"
  by (simp add: quadr_osc_process_def Let_def)

lemma quadr_osc_set_phase_unit:
  "(r (quadr_osc_set_phase w s))\<^sup>2 + (i (quadr_osc_set_phase w s))\<^sup>2 = 1
   \<and> dr (quadr_osc_set_phase w s) = dr s \<and> di (quadr_osc_set_phase w s) = di s"
  by (simp add: quadr_osc_set_phase_def Let_def)

lemma osc_step_unit:
  assumes "(r s)\<^sup>2 + (i s)\<^sup>2 = 1" and "(dr s)\<^sup>2 + (di s)\<^sup>2 = 1"
  shows "\<exists>s1. osc_step c s = Some s1 \<and> (r s1)\<^sup>2 + (i s1)\<^sup>2 = 1 \<and> (dr s1)\<^sup>2 + (di s1)\<^sup>2 = 1"
proof (cases c)
  case (Set_rate w)
  have "0 < (r s)\<^sup>2 + (i s)\<^sup>2" using assms(1) by simp
  from quadr_osc_set_rate_unit [OF this, of w] show ?thesis
    using Set_rate by auto
next
  case (Set_phase w)
  then show ?thesis using assms(2) by (simp add: quadr_osc_set_phase_unit)
next
  case Process
  then show ?thesis using assms
    by (simp add: quadr_osc_process_norm quadr_osc_process_rate)
qed

lemma osc_run_unit:
  assumes "(r s)\<^sup>2 + (i s)\<^sup>2 = 1" and "(dr s)\<^sup>2 + (di s)\<^sup>2 = 1"
  shows "\<exists>s1. osc_run cs s = Some s1 \<and> (r s1)\<^sup>2 + (i s1)\<^sup>2 = 1"
  using assms
proof (induction cs arbitrary: s)
  case Nil
  then show ?case by simp
next
  case (Cons c cs)
  from osc_step_unit [OF Cons.prems, of c] obtain s1 where
    s1: "osc_step c s = Some s1" "(r s1)\<^sup>2 + (i s1)\<^sup>2 = 1" "(dr s1)\<^sup>2 + (di s1)\<^sup>2 = 1"
    by blast
  from Cons.IH [OF s1(2) s1(3)] s1(1) show ?case by simp
qed
lemma sqrt_25: "sqrt 25 = 5"
  using real_sqrt_abs2 [of 5] by simp

text \<open>
  Claim C3. For every prior state with \<open>r\<^sup>2 + i\<^sup>2 > 0\<close> and every rate \<open>w\<close>: \<open>set_rate w\<close>
  returns a state with \<open>r\<^sup>2 + i\<^sup>2 = 1\<close> and the rotation \<open>(cos w, sin w)\<close>; a \<open>process\<close>
  step under that rotation preserves \<open>r\<^sup>2 + i\<^sup>2\<close> exactly; so \<open>r\<^sup>2 + i\<^sup>2 = 1\<close> after
  \<open>set_rate w\<close> and any number \<open>t\<close> of \<open>process\<close> steps, and more generally after \<open>set_rate w\<close>
  followed by any sequence of \<open>process\<close>, \<open>set_phase\<close> and \<open>set_rate\<close> calls, none of
  which divides by zero. (A \<open>set_phase\<close> on an oscillator whose rate was never set leaves
  \<open>dr\<close> and \<open>di\<close> uninitialised; that use is outside the claim.)
\<close>

theorem quadr_osc_unit_circle:
  assumes "0 < (r s)\<^sup>2 + (i s)\<^sup>2"
  shows "(\<exists>s1. quadr_osc_set_rate w s = Some s1 \<and> (r s1)\<^sup>2 + (i s1)\<^sup>2 = 1
            \<and> dr s1 = cos w \<and> di s1 = sin w)
       \<and> (dr u = cos w \<and> di u = sin w \<longrightarrow>
            (r (quadr_osc_process u))\<^sup>2 + (i (quadr_osc_process u))\<^sup>2 = (r u)\<^sup>2 + (i u)\<^sup>2)
       \<and> (\<exists>s2. osc_run (Set_rate w # replicate t Process) s = Some s2
            \<and> (r s2)\<^sup>2 + (i s2)\<^sup>2 = 1)
       \<and> (\<exists>s3. osc_run (Set_rate w # cs) s = Some s3 \<and> (r s3)\<^sup>2 + (i s3)\<^sup>2 = 1)"
proof -
  from quadr_osc_set_rate_unit [OF assms, of w] obtain s1 where
    s1: "quadr_osc_set_rate w s = Some s1" "(r s1)\<^sup>2 + (i s1)\<^sup>2 = 1"
        "dr s1 = cos w" "di s1 = sin w"
    by blast
  have d: "(dr s1)\<^sup>2 + (di s1)\<^sup>2 = 1" using s1(3,4) by simp
  have run: "\<exists>s3. osc_run (Set_rate w # xs) s = Some s3 \<and> (r s3)\<^sup>2 + (i s3)\<^sup>2 = 1" for xs
    using osc_run_unit [OF s1(2) d, of xs] s1(1) by simp
  have rot: "dr u = cos w \<and> di u = sin w \<longrightarrow>
            (r (quadr_osc_process u))\<^sup>2 + (i (quadr_osc_process u))\<^sup>2 = (r u)\<^sup>2 + (i u)\<^sup>2"
    by (simp add: quadr_osc_process_norm)
  from s1 rot run [of "replicate t Process"] run [of cs] show ?thesis by blast
qed

theorem quadr_osc_unit_circle_witness:
  "0 < (r \<lparr>r = 3, i = 4, dr = 7, di = 7\<rparr>)\<^sup>2 + (i \<lparr>r = 3, i = 4, dr = 7, di = 7\<rparr>)\<^sup>2
   \<and> quadr_osc_set_rate (pi / 2) \<lparr>r = 3, i = 4, dr = 7, di = 7\<rparr>
       = Some \<lparr>r = 3 / 5, i = 4 / 5, dr = 0, di = 1\<rparr>
   \<and> osc_run [Set_rate (pi / 2), Process, Process, Set_phase 0, Process]
         \<lparr>r = 3, i = 4, dr = 7, di = 7\<rparr>
       = Some \<lparr>r = 1, i = 0, dr = 0, di = 1\<rparr>
   \<and> (\<exists>s3. osc_run [Set_rate (pi / 2), Process, Process, Set_phase 0, Process]
         \<lparr>r = 3, i = 4, dr = 7, di = 7\<rparr> = Some s3 \<and> (r s3)\<^sup>2 + (i s3)\<^sup>2 = 1)"
proof -
  let ?s = "\<lparr>r = 3, i = 4, dr = 7, di = 7\<rparr>"
  have h: "0 < (r ?s)\<^sup>2 + (i ?s)\<^sup>2" by simp
  have a: "quadr_osc_set_rate (pi / 2) ?s = Some \<lparr>r = 3 / 5, i = 4 / 5, dr = 0, di = 1\<rparr>"
    by (simp add: quadr_osc_set_rate_def Let_def sqrt_25)
  have b: "osc_run [Set_rate (pi / 2), Process, Process, Set_phase 0, Process] ?s
       = Some \<lparr>r = 1, i = 0, dr = 0, di = 1\<rparr>"
    by (simp add: a quadr_osc_process_def quadr_osc_set_phase_def Let_def)
  from quadr_osc_unit_circle [OF h, of "pi / 2" ?s 0 "[Process, Process, Set_phase 0, Process]"]
  have "\<exists>s3. osc_run [Set_rate (pi / 2), Process, Process, Set_phase 0, Process] ?s = Some s3
      \<and> (r s3)\<^sup>2 + (i s3)\<^sup>2 = 1"
    by blast
  with h a b show ?thesis by blast
qed

section \<open>Properties of the amplitude curves\<close>

lemma cube_root_cube: "0 \<le> x \<Longrightarrow> (x * x * x) powr (1 / 3) = x" for x :: real
proof (cases "x = 0")
  case True
  then show ?thesis by simp
next
  case False
  assume "0 \<le> x"
  with False have p: "0 < x" by simp
  then have "x * x * x = x powr 3" by (simp add: power3_eq_cube)
  then have "(x * x * x) powr (1 / 3) = (x powr 3) powr (1 / 3)" by simp
  also have "\<dots> = x powr 1" by (simp only: powr_powr) simp
  also have "\<dots> = x" using p by simp
  finally show ?thesis .
qed

lemma amp_epsilon_root: "(1 / 10 ^ 10 :: real) powr (1 / 3) < 1 / 2000"
proof -
  have "(1 / 10 ^ 10 :: real) powr (1 / 3) < (1 / 2000 * (1 / 2000) * (1 / 2000)) powr (1 / 3)"
    by (rule powr_less_mono2) simp_all
  also have "\<dots> = 1 / 2000" by (rule cube_root_cube) simp
  finally show ?thesis .
qed

lemma linear_to_amp_exact:
  assumes "0 \<le> x" and "x \<le> 1" and "1 / 10 ^ 10 \<le> x * x * x"
  shows "linear_to_amp (amp_to_linear x) = x"
proof -
  have "x * x * x \<le> 1 * 1 * 1" using assms(1,2) by (intro mult_mono) simp_all
  then have c: "limit_range (x * x * x) (1 / 10 ^ 10) 1 = x * x * x"
    using assms(3) by (simp add: limit_range_def)
  have l: "amp_to_linear x = x * x * x" using assms(1) by (simp add: amp_to_linear_def)
  show ?thesis by (simp only: linear_to_amp_def l c cube_root_cube [OF assms(1)])
qed

lemma linear_to_amp_small:
  assumes "0 \<le> x" and "x * x * x < 1 / 10 ^ 10"
  shows "linear_to_amp (amp_to_linear x) = (1 / 10 ^ 10) powr (1 / 3)"
    and "x < (1 / 10 ^ 10) powr (1 / 3)"
proof -
  have c: "limit_range (x * x * x) (1 / 10 ^ 10) 1 = 1 / 10 ^ 10"
    using assms(2) by (simp add: limit_range_def)
  have l: "amp_to_linear x = x * x * x" using assms(1) by (simp add: amp_to_linear_def)
  show "linear_to_amp (amp_to_linear x) = (1 / 10 ^ 10) powr (1 / 3)"
    by (simp only: linear_to_amp_def l c)
  have "0 \<le> x * x * x" using assms(1) by simp
  then have "(x * x * x) powr (1 / 3) < (1 / 10 ^ 10) powr (1 / 3)"
    using assms(2) by (intro powr_less_mono2) simp_all
  then show "x < (1 / 10 ^ 10) powr (1 / 3)"
    by (simp only: cube_root_cube [OF assms(1)])
qed

lemma db_round_trip_exact:
  assumes "2 powr (- 32 / 3) \<le> y" and "y \<le> 2"
  shows "map_option db_to_amp (amp_to_db y) = Some y"
proof -
  have "0 < (2::real) powr (- 32 / 3)" by simp
  with assms(1) have p: "0 < y" by linarith
  have "log 2 (2 powr (- 32 / 3)) \<le> log 2 y"
    using assms(1) p by (simp del: log_powr_cancel)
  then have lo: "- 32 / 3 \<le> log 2 y" by simp
  have "log 2 y \<le> log 2 2" using assms(2) p by (simp del: log_eq_one)
  then have hi: "log 2 y \<le> 1" by simp
  have c: "limit_range (18 * log 2 y) (- 192) 96 = 18 * log 2 y"
    using lo hi by (simp add: limit_range_def)
  have "2 powr (18 * log 2 y / 18) = y" using p by simp
  then have "db_to_amp (18 * log 2 y) = y"
    using p assms(2) by (simp add: db_to_amp_def limit_range_def)
  then show ?thesis using p c by (simp add: amp_to_db_def)
qed

text \<open>
  Claim C8. For every \<open>x\<close> in \<open>[0, 1]\<close> the round trip \<open>linear_to_amp (amp_to_linear x)\<close> is
  within \<open>1/2000\<close> of \<open>x\<close>, and equal to \<open>x\<close> unless \<open>x\<^sup>3\<close> lies below the lower clamp
  \<open>10\<^sup>-\<^sup>1\<^sup>0\<close>. For every \<open>y\<close> in the range \<open>[2 powr (-32/3), 2]\<close>, where neither the clamp of
  \<open>amp_to_db\<close> to \<open>[-192, 96]\<close> nor that of \<open>db_to_amp\<close> to \<open>[0, 2]\<close> acts,
  \<open>db_to_amp (amp_to_db y)\<close> is \<open>y\<close>. Both in exact arithmetic: the tolerance left to
  rounding is not modelled.
\<close>

theorem amp_round_trips:
  "(0 \<le> x \<and> x \<le> 1 \<longrightarrow> \<bar>linear_to_amp (amp_to_linear x) - x\<bar> < 1 / 2000)
   \<and> (0 \<le> x \<and> x \<le> 1 \<and> 1 / 10 ^ 10 \<le> x ^ 3 \<longrightarrow> linear_to_amp (amp_to_linear x) = x)
   \<and> (2 powr (- 32 / 3) \<le> y \<and> y \<le> 2 \<longrightarrow> map_option db_to_amp (amp_to_db y) = Some y)"
proof (intro conjI impI)
  assume a: "0 \<le> x \<and> x \<le> 1"
  show "\<bar>linear_to_amp (amp_to_linear x) - x\<bar> < 1 / 2000"
  proof (cases "1 / 10 ^ 10 \<le> x * x * x")
    case True
    with a show ?thesis by (simp add: linear_to_amp_exact)
  next
    case False
    then have s: "x * x * x < 1 / 10 ^ 10" by simp
    from a have x0: "0 \<le> x" by simp
    show ?thesis
      using linear_to_amp_small [OF x0 s] amp_epsilon_root x0 by simp
  qed
next
  assume "0 \<le> x \<and> x \<le> 1 \<and> 1 / 10 ^ 10 \<le> x ^ 3"
  then show "linear_to_amp (amp_to_linear x) = x"
    by (simp add: linear_to_amp_exact power3_eq_cube)
next
  assume "2 powr (- 32 / 3) \<le> y \<and> y \<le> 2"
  then show "map_option db_to_amp (amp_to_db y) = Some y"
    by (simp add: db_round_trip_exact)
qed

theorem amp_round_trips_witness:
  "linear_to_amp (amp_to_linear (1 / 2)) = 1 / 2
   \<and> \<bar>linear_to_amp (amp_to_linear 0) - 0\<bar> < 1 / 2000
   \<and> amp_to_linear (1 / 2) = 1 / 8
   \<and> amp_to_db 1 = Some 0
   \<and> map_option db_to_amp (amp_to_db 1) = Some 1"
proof -
  have "(2::real) powr (- 32 / 3) \<le> 2 powr 0" by (rule powr_mono) simp_all
  then have h: "(2::real) powr (- 32 / 3) \<le> 1" by simp
  have "linear_to_amp (amp_to_linear (1 / 2)) = 1 / 2"
    using amp_round_trips [of "1 / 2" 1] by (simp add: power3_eq_cube)
  moreover have "\<bar>linear_to_amp (amp_to_linear 0) - 0\<bar> < 1 / 2000"
    using amp_round_trips [of 0 1] by simp
  moreover have "map_option db_to_amp (amp_to_db 1) = Some 1"
    using amp_round_trips [of 0 1] h by simp
  moreover have "amp_to_linear (1 / 2) = 1 / 8" by (simp add: amp_to_linear_def)
  moreover have "amp_to_db 1 = Some 0" by (simp add: amp_to_db_def limit_range_def)
  ultimately show ?thesis by blast
qed

end
